theory Spec2Isabelle
  imports Main
begin

section \<open>Fama: a registry of size-bounded log files\<close>

text \<open>
  The development embeds \<^verbatim>\<open>src/index.js\<close>: the registry of log descriptors kept by the
  class \<^verbatim>\<open>Fama\<close>, its operations \<^verbatim>\<open>addLog\<close>, \<^verbatim>\<open>writeLog\<close>, \<^verbatim>\<open>appendLog\<close>,
  \<^verbatim>\<open>appendLineLog\<close>, \<^verbatim>\<open>clearLog\<close>, \<^verbatim>\<open>removeLog\<close>, and the function \<^verbatim>\<open>overflow\<close>.

  Scope of the model.
  \<^item> A text that is written to a log is a JavaScript string, a list of UTF-16 code units
    (\<open>jsstring\<close>); \<^verbatim>\<open>text.length\<close> is the length of that list. The content of a file is a
    list of bytes (\<^typ>\<open>string\<close>). A text reaches a file through its UTF-8 encoding, and a
    chunk of a file becomes a text through \<^verbatim>\<open>chunk.toString()\<close>, the UTF-8 decoder.
  \<^item> Paths, aliases, behaviours and console messages are lists of characters
    (\<^typ>\<open>string\<close>); the program only compares and concatenates them.
  \<^item> Numbers are integers (\<^typ>\<open>int\<close>); the one place where the source narrows a number
    to 32 bits (\<^verbatim>\<open>|0\<close>) has the wrap-around written out.
  \<^item> Every value the program keeps lives in an explicit state: the array \<^verbatim>\<open>logs\<close>, the
    file system behind the module \<^verbatim>\<open>fs\<close>, and what was written to \<^verbatim>\<open>process.stdout\<close>.
  \<^item> An exception that leaves an operation is the first component of its result.
\<close>

subsection \<open>Strings of the JavaScript library\<close>

definition newline :: char where
  "newline = CHR 0x0A"

definition backslash :: char where
  "backslash = CHR 0x5C"

definition esc :: char where
  "esc = CHR 0x1B"

text \<open>
  A JavaScript string is a list of UTF-16 code units, numbers below \<open>2^16\<close>. \<open>js\<close> is the
  string whose code units are the given characters, for writing down ASCII texts.
\<close>

type_synonym jsstring = "nat list"

definition js :: "string \<Rightarrow> jsstring" where
  "js s = map of_char s"

definition line_feed :: nat where
  "line_feed = 10"

text \<open>
  The bytes Node writes for a string (\<^verbatim>\<open>fs.writeFileSync\<close>, \<^verbatim>\<open>fs.appendFileSync\<close> and
  \<^verbatim>\<open>stream.write\<close> with the default encoding): UTF-8, where a high surrogate followed by
  a low one is one code point of four bytes, and a surrogate on its own is written as
  U+FFFD.
\<close>

fun utf8_bytes :: "jsstring \<Rightarrow> nat list" where
  "utf8_bytes [] = []"
| "utf8_bytes (u # us) =
     (if u < 0x80 then u # utf8_bytes us
      else if u < 0x800 then (0xC0 + u div 64) # (0x80 + u mod 64) # utf8_bytes us
      else if 0xD800 \<le> u \<and> u < 0xDC00
      then (case us of
              [] \<Rightarrow> [0xEF, 0xBF, 0xBD]
            | v # vs \<Rightarrow>
                (if 0xDC00 \<le> v \<and> v < 0xE000
                 then (0xF0 + (0x10000 + (u - 0xD800) * 1024 + (v - 0xDC00)) div 262144)
                      # (0x80 + (0x10000 + (u - 0xD800) * 1024 + (v - 0xDC00)) div 4096 mod 64)
                      # (0x80 + (0x10000 + (u - 0xD800) * 1024 + (v - 0xDC00)) div 64 mod 64)
                      # (0x80 + (0x10000 + (u - 0xD800) * 1024 + (v - 0xDC00)) mod 64)
                      # utf8_bytes vs
                 else 0xEF # 0xBF # 0xBD # utf8_bytes us))
      else if 0xDC00 \<le> u \<and> u < 0xE000 then 0xEF # 0xBF # 0xBD # utf8_bytes us
      else (0xE0 + u div 4096) # (0x80 + u div 64 mod 64) # (0x80 + u mod 64) # utf8_bytes us)"

definition utf8 :: "jsstring \<Rightarrow> string" where
  "utf8 t = map char_of (utf8_bytes t)"

text \<open>
  \<^verbatim>\<open>chunk.toString()\<close>: the UTF-8 decoder of the Encoding standard, which Node follows. The
  arguments are the code point collected so far, the number of continuation bytes still
  needed, and the bounds for the next byte. A byte that cannot continue a sequence ends it
  with U+FFFD and is read again as the start of a new one; so does the end of the chunk.
\<close>

definition units_of :: "nat \<Rightarrow> jsstring" where
  "units_of cp =
     (if cp < 0x10000 then [cp]
      else [0xD800 + (cp - 0x10000) div 1024, 0xDC00 + (cp - 0x10000) mod 1024])"

fun utf8_decode :: "nat \<Rightarrow> nat \<Rightarrow> nat \<Rightarrow> nat \<Rightarrow> nat list \<Rightarrow> jsstring" where
  "utf8_decode cp 0 lo up [] = []"
| "utf8_decode cp (Suc k) lo up [] = [0xFFFD]"
| "utf8_decode cp 0 lo up (b # bs) =
     (if b < 0x80 then b # utf8_decode 0 0 0x80 0xBF bs
      else if 0xC2 \<le> b \<and> b \<le> 0xDF then utf8_decode (b mod 32) 1 0x80 0xBF bs
      else if 0xE0 \<le> b \<and> b \<le> 0xEF
      then utf8_decode (b mod 16) 2 (if b = 0xE0 then 0xA0 else 0x80) (if b = 0xED then 0x9F else 0xBF) bs
      else if 0xF0 \<le> b \<and> b \<le> 0xF4
      then utf8_decode (b mod 8) 3 (if b = 0xF0 then 0x90 else 0x80) (if b = 0xF4 then 0x8F else 0xBF) bs
      else 0xFFFD # utf8_decode 0 0 0x80 0xBF bs)"
| "utf8_decode cp (Suc k) lo up (b # bs) =
     (if lo \<le> b \<and> b \<le> up
      then (if k = 0 then units_of (cp * 64 + b mod 64) @ utf8_decode 0 0 0x80 0xBF bs
            else utf8_decode (cp * 64 + b mod 64) k 0x80 0xBF bs)
      else 0xFFFD # utf8_decode 0 0 0x80 0xBF (b # bs))"

definition toString :: "string \<Rightarrow> jsstring" where
  "toString bs = utf8_decode 0 0 0x80 0xBF (map of_char bs)"

text \<open>\<^verbatim>\<open>s.split('\n')\<close>: the segments between newlines; the empty string gives one empty segment.\<close>

fun split_nl :: "jsstring \<Rightarrow> jsstring list" where
  "split_nl [] = [[]]"
| "split_nl (c # cs) =
     (if c = line_feed then [] # split_nl cs
      else (case split_nl cs of [] \<Rightarrow> [[c]] | t # ts \<Rightarrow> (c # t) # ts))"

text \<open>\<^verbatim>\<open>a.join('\n')\<close>.\<close>

fun join_nl :: "jsstring list \<Rightarrow> jsstring" where
  "join_nl [] = []"
| "join_nl [t] = t"
| "join_nl (t # ts) = t @ line_feed # join_nl ts"

text \<open>\<^verbatim>\<open>file.replace(/\//g, '\\')\<close>: every slash becomes a backslash.\<close>

definition replace_slashes :: "string \<Rightarrow> string" where
  "replace_slashes s = map (\<lambda>c. if c = CHR ''/'' then backslash else c) s"

text \<open>\<^verbatim>\<open>s.lastIndexOf(c)\<close>: the last position of \<open>c\<close>, or \<open>-1\<close>.\<close>

fun indexOf :: "char \<Rightarrow> string \<Rightarrow> nat option" where
  "indexOf c [] = None"
| "indexOf c (d # ds) = (if d = c then Some 0 else map_option Suc (indexOf c ds))"

definition lastIndexOf :: "char \<Rightarrow> string \<Rightarrow> int" where
  "lastIndexOf c s =
     (case indexOf c (rev s) of
        None \<Rightarrow> - 1
      | Some k \<Rightarrow> int (length s) - 1 - int k)"

text \<open>
  \<^verbatim>\<open>s.slice(a, b)\<close> and \<^verbatim>\<open>s.slice(a)\<close>: a negative index counts from the end, and both
  are clamped to the string.
\<close>

definition slice_index :: "string \<Rightarrow> int \<Rightarrow> nat" where
  "slice_index s k =
     (if k < 0 then nat (max (int (length s) + k) 0) else min (nat k) (length s))"

definition slice :: "string \<Rightarrow> int \<Rightarrow> int \<Rightarrow> string" where
  "slice s a b = take (slice_index s b - slice_index s a) (drop (slice_index s a) s)"

definition slice_from :: "string \<Rightarrow> int \<Rightarrow> string" where
  "slice_from s a = drop (slice_index s a) s"

text \<open>A number concatenated to a string: its decimal digits, with a sign when negative.\<close>

definition digit_char :: "nat \<Rightarrow> char" where
  "digit_char d = ''0123456789'' ! d"

fun string_of_nat :: "nat \<Rightarrow> string" where
  "string_of_nat n =
     (if n < 10 then [digit_char n] else string_of_nat (n div 10) @ [digit_char (n mod 10)])"

declare string_of_nat.simps [simp del]

definition string_of_int :: "int \<Rightarrow> string" where
  "string_of_int k = (if k < 0 then CHR ''-'' # string_of_nat (nat (- k)) else string_of_nat (nat k))"

text \<open>
  \<^verbatim>\<open>(a / b) |0\<close> on integers: the quotient truncated towards zero and then wrapped into
  the signed 32-bit range; a division by zero gives an infinity or NaN, which \<^verbatim>\<open>|0\<close>
  turns into 0. (The quotient of two integers below \<open>2^53\<close> is computed exactly enough
  for the truncation to be that of the exact quotient.)
\<close>

definition to_int32 :: "int \<Rightarrow> int" where
  "to_int32 x = (x + 2 ^ 31) mod 2 ^ 32 - 2 ^ 31"

definition trunc_div :: "int \<Rightarrow> int \<Rightarrow> int" where
  "trunc_div a b = sgn a * sgn b * (\<bar>a\<bar> div \<bar>b\<bar>)"

definition div_or0 :: "int \<Rightarrow> int \<Rightarrow> int" where
  "div_or0 a b = (if b = 0 then 0 else to_int32 (trunc_div a b))"

subsection \<open>The file system behind the module fs\<close>

text \<open>
  A path names an inode and an inode holds the bytes: \<^verbatim>\<open>fs.linkSync\<close> gives one inode a
  second name, and a stream keeps writing to its inode after the name it was opened
  under is gone. \<open>denied\<close> holds the paths on which the system refuses every call
  (a missing directory, missing rights).
\<close>

datatype exn = FsError | TypeError

record filesystem =
  names :: "string \<rightharpoonup> nat"
  contents :: "nat \<Rightarrow> string"
  fresh :: nat
  denied :: "string \<Rightarrow> bool"

definition file_content :: "filesystem \<Rightarrow> string \<Rightarrow> string option" where
  "file_content f p = (case names f p of None \<Rightarrow> None | Some i \<Rightarrow> Some (contents f i))"

definition existsSync :: "filesystem \<Rightarrow> string \<Rightarrow> bool" where
  "existsSync f p = (\<not> denied f p \<and> names f p \<noteq> None)"

definition statSync_size :: "filesystem \<Rightarrow> string \<Rightarrow> exn + int" where
  "statSync_size f p =
     (if denied f p then Inl FsError
      else (case names f p of
              None \<Rightarrow> Inl FsError
            | Some i \<Rightarrow> Inr (int (length (contents f i)))))"

definition create_file :: "filesystem \<Rightarrow> string \<Rightarrow> string \<Rightarrow> filesystem" where
  "create_file f p d =
     f\<lparr>names := (names f)(p \<mapsto> fresh f),
       contents := (contents f)(fresh f := d),
       fresh := Suc (fresh f)\<rparr>"

definition writeFileSync :: "filesystem \<Rightarrow> string \<Rightarrow> string \<Rightarrow> exn + filesystem" where
  "writeFileSync f p d =
     (if denied f p then Inl FsError
      else (case names f p of
              None \<Rightarrow> Inr (create_file f p d)
            | Some i \<Rightarrow> Inr (f\<lparr>contents := (contents f)(i := d)\<rparr>)))"

definition appendFileSync :: "filesystem \<Rightarrow> string \<Rightarrow> string \<Rightarrow> exn + filesystem" where
  "appendFileSync f p d =
     (if denied f p then Inl FsError
      else (case names f p of
              None \<Rightarrow> Inr (create_file f p d)
            | Some i \<Rightarrow> Inr (f\<lparr>contents := (contents f)(i := contents f i @ d)\<rparr>)))"

definition unlinkSync :: "filesystem \<Rightarrow> string \<Rightarrow> exn + filesystem" where
  "unlinkSync f p =
     (if denied f p then Inl FsError
      else (case names f p of
              None \<Rightarrow> Inl FsError
            | Some i \<Rightarrow> Inr (f\<lparr>names := (names f)(p := None)\<rparr>)))"

definition linkSync :: "filesystem \<Rightarrow> string \<Rightarrow> string \<Rightarrow> exn + filesystem" where
  "linkSync f existing new =
     (if denied f existing then Inl FsError
      else if denied f new then Inl FsError
      else (case names f existing of
              None \<Rightarrow> Inl FsError
            | Some i \<Rightarrow>
                (case names f new of
                   None \<Rightarrow> Inr (f\<lparr>names := (names f)(new \<mapsto> i)\<rparr>)
                 | Some j \<Rightarrow> Inl FsError)))"

subsection \<open>The host: platform, working directory, Node version\<close>

text \<open>
  What the program takes from its host and \<^verbatim>\<open>src/\<close> does not hold: the platform's path
  separator, \<^verbatim>\<open>process.cwd()\<close>, what \<^verbatim>\<open>fs.writeFileSync(path)\<close> does when called with
  no data (Node before version 14 writes the text \<^verbatim>\<open>undefined\<close>, Node 14 and later throws
  a \<^verbatim>\<open>TypeError\<close> before it opens the file), and the size of the chunks in which
  \<^verbatim>\<open>fs.createReadStream(path)\<close> delivers a file (the source passes no option, so it is
  Node's default \<^verbatim>\<open>highWaterMark\<close>, 64 KiB).
\<close>

datatype platform = Windows | Posix

record host =
  platform :: platform
  cwd :: string
  coerces_missing_data :: bool
  highWaterMark :: nat

fun sep :: "platform \<Rightarrow> char" where
  "sep Windows = backslash"
| "sep Posix = CHR ''/''"

fun is_absolute :: "platform \<Rightarrow> string \<Rightarrow> bool" where
  "is_absolute Posix p = (case p of [] \<Rightarrow> False | c # cs \<Rightarrow> c = CHR ''/'')"
| "is_absolute Windows p =
     (case p of
        [] \<Rightarrow> False
      | c # cs \<Rightarrow>
          (if c = CHR ''/'' then True
           else if c = backslash then True
           else (case cs of [] \<Rightarrow> False | d # ds \<Rightarrow> d = CHR '':'')))"

text \<open>
  The file a path denotes: a relative path is taken from the working directory, with the
  platform's separator. Files are told apart by the resulting string.
\<close>

definition resolve :: "host \<Rightarrow> string \<Rightarrow> string" where
  "resolve h p = (if is_absolute (platform h) p then p else cwd h @ sep (platform h) # p)"

text \<open>\<^verbatim>\<open>const projectDir = process.cwd() + '\\'\<close>\<close>

definition projectDir :: "host \<Rightarrow> string" where
  "projectDir h = cwd h @ [backslash]"

definition writeFileSync_no_data :: "host \<Rightarrow> filesystem \<Rightarrow> string \<Rightarrow> exn + filesystem" where
  "writeFileSync_no_data h f p =
     (if coerces_missing_data h then writeFileSync f p ''undefined'' else Inl TypeError)"

text \<open>The chunks of a read stream: \<open>n\<close> bytes each, but for the last.\<close>

function chunks :: "nat \<Rightarrow> string \<Rightarrow> string list" where
  "chunks n s = (if n = 0 then [] else if s = [] then [] else take n s # chunks n (drop n s))"
  by pat_completeness auto
termination
  by (relation "measure (\<lambda>(n, s). length s)") auto

declare chunks.simps [simp del]

subsection \<open>The registry\<close>

record LogFile =
  path :: string
  "alias" :: string
  length_f :: int
  maxLength :: int
  behaviour :: string

text \<open>
  The state of the process: \<^verbatim>\<open>this.logs\<close> of the one instance the module exports, the
  file system, and the strings written to \<^verbatim>\<open>process.stdout\<close>, one per call of \<^verbatim>\<open>write\<close>.
\<close>

record fama =
  logs :: "LogFile list"
  fs :: filesystem
  stdout :: "string list"

text \<open>The lines \<^verbatim>\<open>warn\<close>, \<^verbatim>\<open>error\<close> and \<^verbatim>\<open>info\<close> write: a coloured tag, the message, a newline.\<close>

definition warn_line :: "string \<Rightarrow> string" where
  "warn_line message = esc # ''[33mWARNING'' @ esc # ''[0m '' @ message @ [newline]"

definition error_line :: "string \<Rightarrow> string" where
  "error_line message = esc # ''[31mERROR'' @ esc # ''[0m '' @ message @ [newline]"

definition info_line :: "string \<Rightarrow> string" where
  "info_line message = esc # ''[36mINFO'' @ esc # ''[0m '' @ message @ [newline]"

definition warn :: "string \<Rightarrow> fama \<Rightarrow> fama" where
  "warn message st = st\<lparr>stdout := stdout st @ [warn_line message]\<rparr>"

definition error :: "string \<Rightarrow> fama \<Rightarrow> fama" where
  "error message st = st\<lparr>stdout := stdout st @ [error_line message]\<rparr>"

definition info :: "string \<Rightarrow> fama \<Rightarrow> fama" where
  "info message st = st\<lparr>stdout := stdout st @ [info_line message]\<rparr>"

text \<open>
  \<^verbatim>\<open>this.logs.find(log => log.alias === alias)\<close> and the search loop of \<^verbatim>\<open>removeLog\<close>: the
  first descriptor with the alias. The model keeps its position, which stands for the
  reference to the object: an assignment to a field of \<^verbatim>\<open>log\<close> updates \<open>logs\<close> there.
\<close>

fun findIndex :: "string \<Rightarrow> LogFile list \<Rightarrow> nat option" where
  "findIndex a [] = None"
| "findIndex a (l # ls) = (if alias l = a then Some 0 else map_option Suc (findIndex a ls))"

definition set_length :: "nat \<Rightarrow> int \<Rightarrow> fama \<Rightarrow> fama" where
  "set_length i n st = st\<lparr>logs := (logs st)[i := (logs st ! i)\<lparr>length_f := n\<rparr>]\<rparr>"

definition addLog :: "host \<Rightarrow> string \<Rightarrow> string \<Rightarrow> int \<Rightarrow> string \<Rightarrow> fama \<Rightarrow> exn option \<times> fama" where
  "addLog h file0 alias0 maxLength0 behaviour0 st =
     (let file = replace_slashes file0 in
      case (if \<not> existsSync (fs st) (resolve h (projectDir h @ file))
            then (case writeFileSync_no_data h (fs st) (resolve h file) of
                    Inl e \<Rightarrow> Inl e
                  | Inr f \<Rightarrow> Inr (f, 0))
            else (case statSync_size (fs st) (resolve h (projectDir h @ file)) of
                    Inl e \<Rightarrow> Inl e
                  | Inr n \<Rightarrow> Inr (fs st, n))) of
        Inl e \<Rightarrow> (None, error (''Fama couldn't create a file '' @ projectDir h @ file) st)
      | Inr (f, length0) \<Rightarrow>
          (let invalid = (behaviour0 \<noteq> ''stop'' \<and> behaviour0 \<noteq> ''ingore'' \<and> behaviour0 \<noteq> ''split''
                           \<and> behaviour0 \<noteq> ''rewrite'' \<and> behaviour0 \<noteq> ''continue'');
               st1 = (if invalid
                      then warn (CHR 0x27 # behaviour0 @ CHR 0x27 # '' is not valid behaviour type. Defaulting to stop.'') st
                      else st);
               behaviour1 = (if invalid then ''stop'' else behaviour0)
           in (None, st1\<lparr>fs := f,
                 logs := logs st1 @ [\<lparr>path = file, alias = alias0, length_f = length0,
                                      maxLength = maxLength0, behaviour = behaviour1\<rparr>]\<rparr>)))"

definition writeLog :: "host \<Rightarrow> string \<Rightarrow> jsstring \<Rightarrow> fama \<Rightarrow> exn option \<times> fama" where
  "writeLog h a text st =
     (case findIndex a (logs st) of
        None \<Rightarrow> (None, error (''Couldn't write to a log file with alias '' @ a @ '', log file was not found'') st)
      | Some i \<Rightarrow>
          (case writeFileSync (fs st) (resolve h (path (logs st ! i))) (utf8 text) of
             Inl e \<Rightarrow> (Some e, st)
           | Inr f \<Rightarrow> (None, set_length i (int (length text)) (st\<lparr>fs := f\<rparr>))))"

definition clearLog :: "host \<Rightarrow> string \<Rightarrow> fama \<Rightarrow> exn option \<times> fama" where
  "clearLog h a st =
     (case findIndex a (logs st) of
        None \<Rightarrow> (None, error (''Couldn't clear a log file with alias '' @ a @ '', log file was not found'') st)
      | Some i \<Rightarrow>
          (case writeFileSync (fs st) (resolve h (path (logs st ! i))) [] of
             Inl e \<Rightarrow> (Some e, st)
           | Inr f \<Rightarrow> (None, set_length i 0 (st\<lparr>fs := f\<rparr>))))"

definition removeLog :: "host \<Rightarrow> string \<Rightarrow> fama \<Rightarrow> exn option \<times> fama" where
  "removeLog h a st =
     (case findIndex a (logs st) of
        None \<Rightarrow> (None, error (''Couldn't delete a log file with alias '' @ a @ '', log file was not found'') st)
      | Some i \<Rightarrow>
          (case unlinkSync (fs st) (resolve h (path (logs st ! i))) of
             Inl e \<Rightarrow> (Some e, st)
           | Inr f \<Rightarrow> (None, st\<lparr>fs := f, logs := take i (logs st) @ drop (Suc i) (logs st)\<rparr>)))"

subsection \<open>The rewrite rotation\<close>

text \<open>
  The variables the \<^verbatim>\<open>'data'\<close> handler of the read stream closes over, and the bytes that
  what it has passed to \<^verbatim>\<open>writeStream.write\<close> so far amounts to: a chunk is passed as it
  is, a string as its UTF-8 encoding.
\<close>

record rotation =
  toDelete :: int
  pass :: bool
  written :: string

text \<open>
  The loop over \<^verbatim>\<open>texts\<close>: each segment's length is taken off \<^verbatim>\<open>toDelete\<close>; at the first
  segment that brings it to zero or below and is not the last, the segments after it
  are written, joined by newlines, and the loop ends. The result is the final
  \<^verbatim>\<open>toDelete\<close> and what was written, if anything.
\<close>

fun drop_segments :: "int \<Rightarrow> jsstring list \<Rightarrow> int \<times> jsstring option" where
  "drop_segments d [] = (d, None)"
| "drop_segments d (t # ts) =
     (if d - int (length t) \<le> 0 \<and> ts \<noteq> [] then (d - int (length t), Some (join_nl ts))
      else drop_segments (d - int (length t)) ts)"

definition on_data :: "rotation \<Rightarrow> string \<Rightarrow> rotation" where
  "on_data r chunk =
     (if pass r then r\<lparr>written := written r @ chunk\<rparr>
      else (let text = toString chunk in
            if toDelete r > int (length text) then r\<lparr>toDelete := toDelete r - int (length text)\<rparr>
            else (case drop_segments (toDelete r) (split_nl text) of
                    (d, None) \<Rightarrow> r\<lparr>toDelete := d, pass := True\<rparr>
                  | (d, Some kept) \<Rightarrow>
                      r\<lparr>toDelete := d, pass := True, written := written r @ utf8 kept\<rparr>)))"

text \<open>What the write stream has received when the read stream closes.\<close>

definition trimmed :: "nat \<Rightarrow> int \<Rightarrow> string \<Rightarrow> string" where
  "trimmed n d content =
     written (foldl on_data \<lparr>toDelete = d, pass = False, written = []\<rparr> (chunks n content))"

text \<open>
  \<^verbatim>\<open>fs.createWriteStream(path)\<close> opens with flag \<^verbatim>\<open>w\<close>: the file is created, or emptied
  when it exists. The stream keeps the inode.
\<close>

definition open_write :: "filesystem \<Rightarrow> string \<Rightarrow> exn + filesystem \<times> nat" where
  "open_write f p =
     (if denied f p then Inl FsError
      else (case names f p of
              None \<Rightarrow> Inr (create_file f p [], fresh f)
            | Some i \<Rightarrow> Inr (f\<lparr>contents := (contents f)(i := [])\<rparr>, i)))"

definition stream_write :: "filesystem \<Rightarrow> nat \<Rightarrow> string \<Rightarrow> filesystem" where
  "stream_write f i d = f\<lparr>contents := (contents f)(i := contents f i @ d)\<rparr>"

text \<open>
  The branch \<^verbatim>\<open>case 'rewrite'\<close> of \<^verbatim>\<open>overflow\<close>, run to the end of the \<^verbatim>\<open>'close'\<close> handler
  with no other operation in between: both streams are opened, the chunks of the file
  go through the \<^verbatim>\<open>'data'\<close> handler, then the log is unlinked, the temporary file is
  linked under the log's name and unlinked under its own, and \<open>text\<close> is written to
  the stream. A stream that cannot be opened emits an \<^verbatim>\<open>'error'\<close> event nobody listens to,
  which is an exception; the model stops there.
  No statement of this branch assigns to \<^verbatim>\<open>log.length\<close>.
\<close>

definition rewrite :: "host \<Rightarrow> nat \<Rightarrow> jsstring \<Rightarrow> fama \<Rightarrow> exn option \<times> fama" where
  "rewrite h i text st =
     (let log = logs st ! i;
          p = resolve h (path log);
          temp = resolve h (path log @ ''.temp'')
      in if denied (fs st) p then (Some FsError, st)
         else (case names (fs st) p of
            None \<Rightarrow> (Some FsError, st)
          | Some r \<Rightarrow>
             (case open_write (fs st) temp of
                Inl e \<Rightarrow> (Some e, st)
              | Inr (f1, w) \<Rightarrow>
                 (let f2 = stream_write f1 w
                             (trimmed (highWaterMark h)
                                (length_f log + int (length text) - maxLength log) (contents f1 r))
                  in case unlinkSync f2 p of
                       Inl e \<Rightarrow> (Some e, st\<lparr>fs := f2\<rparr>)
                     | Inr f3 \<Rightarrow>
                        (case linkSync f3 temp p of
                           Inl e \<Rightarrow> (Some e, st\<lparr>fs := f3\<rparr>)
                         | Inr f4 \<Rightarrow>
                            (case unlinkSync f4 temp of
                               Inl e \<Rightarrow> (Some e, st\<lparr>fs := f4\<rparr>)
                             | Inr f5 \<Rightarrow> (None, st\<lparr>fs := stream_write f5 w (utf8 text)\<rparr>)))))))"

subsection \<open>Overflow and append\<close>

text \<open>\<^verbatim>\<open>nextFilePath\<close> of the branch \<^verbatim>\<open>case 'split'\<close>.\<close>

definition fileIndex :: "LogFile \<Rightarrow> jsstring \<Rightarrow> int" where
  "fileIndex log text = div_or0 (length_f log + int (length text)) (maxLength log) + 1"

definition nextFilePath :: "LogFile \<Rightarrow> jsstring \<Rightarrow> string" where
  "nextFilePath log text =
     (let fileExtensionIndex = lastIndexOf CHR ''.'' (path log)
      in slice (path log) 0 fileExtensionIndex @ string_of_int (fileIndex log text)
           @ slice_from (path log) fileExtensionIndex)"

text \<open>
  \<^verbatim>\<open>overflow(log, text)\<close>; \<open>i\<close> is the position of \<open>log\<close> in \<open>logs\<close>. The \<^verbatim>\<open>switch\<close> has
  the four cases below and no default: any other behaviour does nothing.
\<close>

definition overflow :: "host \<Rightarrow> nat \<Rightarrow> jsstring \<Rightarrow> fama \<Rightarrow> exn option \<times> fama" where
  "overflow h i text st =
     (let log = logs st ! i in
      if behaviour log = ''stop''
      then (None, info (''The '' @ alias log @ '' log file has reached its maximum size'') st)
      else if behaviour log = ''rewrite'' then rewrite h i text st
      else if behaviour log = ''split''
      then (case appendFileSync (fs st) (resolve h (nextFilePath log text)) (utf8 text) of
              Inl e \<Rightarrow> (Some e, st)
            | Inr f \<Rightarrow> (None, set_length i (length_f log + int (length text)) (st\<lparr>fs := f\<rparr>)))
      else if behaviour log = ''continue''
      then (case appendFileSync (fs st) (resolve h (path log)) (utf8 text) of
              Inl e \<Rightarrow> (Some e, st)
            | Inr f \<Rightarrow> (None, set_length i (length_f log + int (length text)) (st\<lparr>fs := f\<rparr>)))
      else (None, st))"

definition appendLog :: "host \<Rightarrow> string \<Rightarrow> jsstring \<Rightarrow> fama \<Rightarrow> exn option \<times> fama" where
  "appendLog h a text st =
     (case findIndex a (logs st) of
        None \<Rightarrow> (None, error (''Couldn't append to a log file with alias '' @ a @ '', log file was not found'') st)
      | Some i \<Rightarrow>
          (let log = logs st ! i in
           if length_f log + int (length text) > maxLength log then overflow h i text st
           else (case appendFileSync (fs st) (resolve h (path log)) (utf8 text) of
                   Inl e \<Rightarrow> (Some e, st)
                 | Inr f \<Rightarrow> (None, set_length i (length_f log + int (length text)) (st\<lparr>fs := f\<rparr>)))))"

definition appendLineLog :: "host \<Rightarrow> string \<Rightarrow> jsstring \<Rightarrow> fama \<Rightarrow> exn option \<times> fama" where
  "appendLineLog h a text st = appendLog h a (text @ [line_feed]) st"

subsection \<open>Example hosts and disks\<close>

text \<open>
  A Windows host running a current Node in \<^verbatim>\<open>C:\app\<close>, the same host with a Node older
  than 14, and a POSIX host with such a Node in \<^verbatim>\<open>/app\<close>.
\<close>

definition host_win :: host where
  "host_win = \<lparr>platform = Windows, cwd = ''C:'' @ backslash # ''app'', coerces_missing_data = False,
     highWaterMark = 65536\<rparr>"

definition host_win_old :: host where
  "host_win_old = \<lparr>platform = Windows, cwd = ''C:'' @ backslash # ''app'', coerces_missing_data = True,
     highWaterMark = 65536\<rparr>"

definition host_posix_old :: host where
  "host_posix_old = \<lparr>platform = Posix, cwd = ''/app'', coerces_missing_data = True,
     highWaterMark = 65536\<rparr>"

text \<open>An empty disk, and a disk whose only file is \<^verbatim>\<open>C:\app\log.txt\<close> with a given content.\<close>

definition disk_empty :: filesystem where
  "disk_empty = \<lparr>names = Map.empty, contents = (\<lambda>i. []), fresh = 0, denied = (\<lambda>p. False)\<rparr>"

definition log_txt :: string where
  "log_txt = ''C:'' @ backslash # ''app'' @ backslash # ''log.txt''"

definition disk_log :: "string \<Rightarrow> filesystem" where
  "disk_log content =
     \<lparr>names = [log_txt \<mapsto> 0], contents = (\<lambda>i. if i = 0 then content else []), fresh = 1,
      denied = (\<lambda>p. False)\<rparr>"

text \<open>The process right after start, and with one descriptor for \<^verbatim>\<open>log.txt\<close> under the alias \<^verbatim>\<open>log\<close>.\<close>

definition start :: "filesystem \<Rightarrow> fama" where
  "start f = \<lparr>logs = [], fs = f, stdout = []\<rparr>"

definition registered :: "string \<Rightarrow> int \<Rightarrow> string \<Rightarrow> fama" where
  "registered content m b =
     \<lparr>logs = [\<lparr>path = ''log.txt'', alias = ''log'', length_f = int (length content),
               maxLength = m, behaviour = b\<rparr>],
      fs = disk_log content, stdout = []\<rparr>"

text \<open>A descriptor for a log of 2 GiB that splits at every byte.\<close>

definition huge_split_log :: LogFile where
  "huge_split_log = \<lparr>path = ''log.txt'', alias = ''log'', length_f = 2147483648, maxLength = 1,
     behaviour = ''split''\<rparr>"

text \<open>A log whose first line is longer than one chunk of the read stream.\<close>

definition long_line_log :: string where
  "long_line_log = replicate 65536 CHR ''a'' @ ''b'' @ newline # ''c'' @ [newline]"

subsection \<open>Notions the properties are stated with\<close>

text \<open>A list of bytes that is ASCII text: no byte has its top bit set.\<close>

definition ascii :: "string \<Rightarrow> bool" where
  "ascii s = list_all (\<lambda>c. \<not> digit7 c) s"

text \<open>What identifies a descriptor: every field but the tracked length.\<close>

definition identity_of :: "LogFile \<Rightarrow> string \<times> string \<times> int \<times> string" where
  "identity_of l = (path l, alias l, maxLength l, behaviour l)"

text \<open>
  Normalizing a path to a platform's separator, in the words of the specification:
  every slash and every backslash becomes the separator of the platform.
\<close>

definition normalize_separators :: "platform \<Rightarrow> string \<Rightarrow> string" where
  "normalize_separators pf s =
     map (\<lambda>c. if c = CHR ''/'' then sep pf else if c = backslash then sep pf else c) s"

section \<open>Properties\<close>

subsection \<open>Looking a descriptor up\<close>

lemma findIndex_None_iff: "findIndex a ls = None \<longleftrightarrow> a \<notin> set (map alias ls)"
  by (induction ls) auto

lemma findIndex_SomeD: "findIndex a ls = Some i \<Longrightarrow> i < length ls \<and> alias (ls ! i) = a"
  by (induction ls arbitrary: i) (auto split: if_splits)

subsection \<open>ASCII texts\<close>

text \<open>For ASCII text the UTF-8 encoding is the text itself, and so is what the decoder reads.\<close>

lemma of_char_ascii: "\<not> digit7 c \<Longrightarrow> (of_char c :: nat) < 128"
  by (cases c) (simp add: of_char_def)

lemma utf8_bytes_ascii: "list_all (\<lambda>u. u < 128) us \<Longrightarrow> utf8_bytes us = us"
  by (induction us) simp_all

lemma utf8_decode_ascii: "list_all (\<lambda>b. b < 128) bs \<Longrightarrow> utf8_decode cp 0 lo up bs = bs"
  by (induction bs arbitrary: cp lo up) simp_all

lemma js_ascii: "ascii s \<Longrightarrow> list_all (\<lambda>u. u < 128) (js s)"
  by (induction s) (simp_all add: ascii_def js_def of_char_ascii)

lemma utf8_js: "ascii s \<Longrightarrow> utf8 (js s) = s"
  using js_ascii [of s] by (simp add: utf8_def utf8_bytes_ascii) (simp add: js_def)

lemma toString_ascii: "ascii s \<Longrightarrow> toString s = js s"
  using js_ascii [of s] by (simp add: toString_def utf8_decode_ascii js_def)

lemma length_utf8_ascii: "list_all (\<lambda>u. u < 128) text \<Longrightarrow> length (utf8 text) = length text"
  by (simp add: utf8_def utf8_bytes_ascii)

subsection \<open>An alias that is not registered\<close>

text \<open>
  Claim C8. For an alias that no descriptor of the registry carries, each of \<^verbatim>\<open>writeLog\<close>,
  \<^verbatim>\<open>appendLog\<close>, \<^verbatim>\<open>clearLog\<close> and \<^verbatim>\<open>removeLog\<close> returns without an exception, and the state
  it leaves is the state before with exactly one line more on the output, the error
  report: the registry and the file system are the same.
\<close>

theorem unknown_alias_is_reported:
  assumes "a \<notin> set (map alias (logs st))"
  shows "writeLog h a text st =
           (None, st\<lparr>stdout := stdout st @
              [error_line (''Couldn't write to a log file with alias '' @ a @ '', log file was not found'')]\<rparr>)
       \<and> appendLog h a text st =
           (None, st\<lparr>stdout := stdout st @
              [error_line (''Couldn't append to a log file with alias '' @ a @ '', log file was not found'')]\<rparr>)
       \<and> clearLog h a st =
           (None, st\<lparr>stdout := stdout st @
              [error_line (''Couldn't clear a log file with alias '' @ a @ '', log file was not found'')]\<rparr>)
       \<and> removeLog h a st =
           (None, st\<lparr>stdout := stdout st @
              [error_line (''Couldn't delete a log file with alias '' @ a @ '', log file was not found'')]\<rparr>)"
proof -
  from assms have none: "findIndex a (logs st) = None"
    by (simp add: findIndex_None_iff)
  have w: "writeLog h a text st =
           (None, st\<lparr>stdout := stdout st @
              [error_line (''Couldn't write to a log file with alias '' @ a @ '', log file was not found'')]\<rparr>)"
    by (simp add: writeLog_def none error_def)
  have a: "appendLog h a text st =
           (None, st\<lparr>stdout := stdout st @
              [error_line (''Couldn't append to a log file with alias '' @ a @ '', log file was not found'')]\<rparr>)"
    by (simp add: appendLog_def none error_def)
  have c: "clearLog h a st =
           (None, st\<lparr>stdout := stdout st @
              [error_line (''Couldn't clear a log file with alias '' @ a @ '', log file was not found'')]\<rparr>)"
    by (simp add: clearLog_def none error_def)
  have r: "removeLog h a st =
           (None, st\<lparr>stdout := stdout st @
              [error_line (''Couldn't delete a log file with alias '' @ a @ '', log file was not found'')]\<rparr>)"
    by (simp add: removeLog_def none error_def)
  from w a c r show ?thesis by (intro conjI)
qed

theorem unknown_alias_is_reported_witness:
  "''audit'' \<notin> set (map alias (logs (registered ''12'' 10 ''stop'')))
   \<and> removeLog host_win ''audit'' (registered ''12'' 10 ''stop'') =
       (None, (registered ''12'' 10 ''stop'')\<lparr>stdout :=
          [error_line ''Couldn't delete a log file with alias audit, log file was not found'']\<rparr>)"
  using unknown_alias_is_reported [of "''audit''" "registered ''12'' 10 ''stop''" host_win "[]"]
  by (simp add: registered_def)

subsection \<open>Appending below the limit\<close>

lemma appendFileSync_content:
  assumes "\<not> denied f p"
  shows "\<exists>f'. appendFileSync f p d = Inr f'
           \<and> file_content f' p = Some ((case file_content f p of None \<Rightarrow> [] | Some old \<Rightarrow> old) @ d)"
  using assms
  by (cases "names f p") (simp_all add: appendFileSync_def file_content_def create_file_def)

lemma appendLog_appends:
  assumes "findIndex a (logs st) = Some i"
    and "length_f (logs st ! i) + int (length text) \<le> maxLength (logs st ! i)"
    and "\<not> denied (fs st) (resolve h (path (logs st ! i)))"
  shows "fst (appendLog h a text st) = None
       \<and> file_content (fs (snd (appendLog h a text st))) (resolve h (path (logs st ! i))) =
           Some ((case file_content (fs st) (resolve h (path (logs st ! i))) of
                    None \<Rightarrow> [] | Some old \<Rightarrow> old) @ utf8 text)
       \<and> logs (snd (appendLog h a text st)) =
           (logs st)[i := (logs st ! i)\<lparr>length_f := length_f (logs st ! i) + int (length text)\<rparr>]
       \<and> stdout (snd (appendLog h a text st)) = stdout st"
proof -
  let ?p = "resolve h (path (logs st ! i))"
  from appendFileSync_content [OF assms(3), of "utf8 text"] obtain f'
    where app: "appendFileSync (fs st) ?p (utf8 text) = Inr f'"
      and con: "file_content f' ?p =
                  Some ((case file_content (fs st) ?p of None \<Rightarrow> [] | Some old \<Rightarrow> old) @ utf8 text)"
    by blast
  from assms(1,2) app have res: "appendLog h a text st =
      (None, set_length i (length_f (logs st ! i) + int (length text)) (st\<lparr>fs := f'\<rparr>))"
    by (simp add: appendLog_def)
  show ?thesis
    by (simp add: res con set_length_def)
qed

text \<open>
  Claim C7, as the code has it. For a registered alias and a text with
  \<open>length + text.length \<le> maxLength\<close>, \<^verbatim>\<open>appendLog\<close> returns without an exception, the
  backing file holds its prior content followed by the UTF-8 encoding of the text (the
  encoding alone when the file was missing), the descriptor's length is the prior length
  plus \<^verbatim>\<open>text.length\<close>, the number of UTF-16 code units of the text, and nothing is
  reported; provided the file system accepts the write. For ASCII text the number of code
  units is the number of bytes appended.
\<close>

theorem append_within_limit:
  assumes "findIndex a (logs st) = Some i"
    and "length_f (logs st ! i) + int (length text) \<le> maxLength (logs st ! i)"
    and "\<not> denied (fs st) (resolve h (path (logs st ! i)))"
  shows "fst (appendLog h a text st) = None
       \<and> file_content (fs (snd (appendLog h a text st))) (resolve h (path (logs st ! i))) =
           Some ((case file_content (fs st) (resolve h (path (logs st ! i))) of
                    None \<Rightarrow> [] | Some old \<Rightarrow> old) @ utf8 text)
       \<and> logs (snd (appendLog h a text st)) =
           (logs st)[i := (logs st ! i)\<lparr>length_f := length_f (logs st ! i) + int (length text)\<rparr>]
       \<and> stdout (snd (appendLog h a text st)) = stdout st
       \<and> (list_all (\<lambda>u. u < 128) text \<longrightarrow> length (utf8 text) = length text)"
  using appendLog_appends [OF assms] by (simp add: length_utf8_ascii)

theorem append_within_limit_witness:
  "findIndex ''log'' (logs (registered ''12345678'' 10 ''stop'')) = Some 0
   \<and> length_f (logs (registered ''12345678'' 10 ''stop'') ! 0) + int (length (js ''ab''))
        \<le> maxLength (logs (registered ''12345678'' 10 ''stop'') ! 0)
   \<and> \<not> denied (fs (registered ''12345678'' 10 ''stop''))
          (resolve host_win (path (logs (registered ''12345678'' 10 ''stop'') ! 0)))
   \<and> list_all (\<lambda>u. u < 128) (js ''ab'')
   \<and> fst (appendLog host_win ''log'' (js ''ab'') (registered ''12345678'' 10 ''stop'')) = None
   \<and> file_content (fs (snd (appendLog host_win ''log'' (js ''ab'') (registered ''12345678'' 10 ''stop''))))
        log_txt = Some ''12345678ab''
   \<and> map length_f (logs (snd (appendLog host_win ''log'' (js ''ab'') (registered ''12345678'' 10 ''stop''))))
        = [10]
   \<and> length (utf8 (js ''ab'')) = length (js ''ab'')"
  using append_within_limit [of "''log''" "registered ''12345678'' 10 ''stop''" 0 "js ''ab''" host_win]
    utf8_js [of "''ab''"]
  by (simp add: registered_def disk_log_def host_win_def resolve_def file_content_def log_txt_def
      backslash_def ascii_def) (simp add: js_def)

text \<open>
  The number of code units is not the number of bytes in general: the letter e with an
  acute accent is the one code unit U+00E9 and is written as the two bytes C3 A9. Appended
  to a log of 8 bytes it makes a file of 10 bytes and a length of 9.
\<close>

theorem append_counts_code_units_counterexample:
  "fst (appendLog host_win ''log'' [0xE9] (registered ''12345678'' 10 ''stop'')) = None
   \<and> file_content (fs (snd (appendLog host_win ''log'' [0xE9] (registered ''12345678'' 10 ''stop''))))
        log_txt = Some (''12345678'' @ [CHR 0xC3, CHR 0xA9])
   \<and> map length_f (logs (registered ''12345678'' 10 ''stop'')) = [8]
   \<and> map length_f (logs (snd (appendLog host_win ''log'' [0xE9] (registered ''12345678'' 10 ''stop''))))
        = [9]
   \<and> length (utf8 [0xE9]) = 2
   \<and> map length_f (logs (snd (appendLog host_win ''log'' [0xE9] (registered ''12345678'' 10 ''stop''))))
        \<noteq> [8 + int (length (utf8 [0xE9]))]"
proof -
  have enc: "utf8 [0xE9] = [CHR 0xC3, CHR 0xA9]"
    by code_simp
  show ?thesis
    using appendLog_appends [of "''log''" "registered ''12345678'' 10 ''stop''" 0 "[0xE9]" host_win]
    by (simp add: enc registered_def disk_log_def host_win_def resolve_def file_content_def log_txt_def
        backslash_def)
qed

subsection \<open>Overflow with the behaviours stop and ignore\<close>

text \<open>
  Claim C6. For a descriptor whose behaviour is \<^verbatim>\<open>stop\<close> or \<^verbatim>\<open>ignore\<close>, an \<^verbatim>\<open>appendLog\<close>
  whose text would exceed \<open>maxLength\<close> returns without an exception and leaves the file
  system and the registry as they were; with \<^verbatim>\<open>stop\<close> the output gains exactly one line,
  the information that the log has reached its maximum size, and with \<^verbatim>\<open>ignore\<close> the
  whole state is unchanged.
\<close>

theorem stop_and_ignore_write_nothing:
  assumes "findIndex a (logs st) = Some i"
    and "behaviour (logs st ! i) = ''stop'' \<or> behaviour (logs st ! i) = ''ignore''"
    and "length_f (logs st ! i) + int (length text) > maxLength (logs st ! i)"
  shows "appendLog h a text st =
           (None,
            if behaviour (logs st ! i) = ''stop''
            then st\<lparr>stdout := stdout st @
                   [info_line (''The '' @ a @ '' log file has reached its maximum size'')]\<rparr>
            else st)"
proof -
  from assms(1) have al: "alias (logs st ! i) = a"
    by (simp add: findIndex_SomeD)
  from assms(2) show ?thesis
  proof
    assume "behaviour (logs st ! i) = ''stop''"
    with assms(1,3) al show ?thesis
      by (simp add: appendLog_def overflow_def info_def)
  next
    assume "behaviour (logs st ! i) = ''ignore''"
    with assms(1,3) show ?thesis
      by (simp add: appendLog_def overflow_def)
  qed
qed

theorem stop_and_ignore_write_nothing_witness:
  "findIndex ''log'' (logs (registered ''12345678'' 10 ''stop'')) = Some 0
   \<and> behaviour (logs (registered ''12345678'' 10 ''stop'') ! 0) = ''stop''
   \<and> length_f (logs (registered ''12345678'' 10 ''stop'') ! 0) + int (length (js ''abc''))
        > maxLength (logs (registered ''12345678'' 10 ''stop'') ! 0)
   \<and> appendLog host_win ''log'' (js ''abc'') (registered ''12345678'' 10 ''stop'') =
     (None, (registered ''12345678'' 10 ''stop'')\<lparr>stdout :=
        [info_line ''The log log file has reached its maximum size'']\<rparr>)
   \<and> findIndex ''log'' (logs (registered ''12345678'' 10 ''ignore'')) = Some 0
   \<and> behaviour (logs (registered ''12345678'' 10 ''ignore'') ! 0) = ''ignore''
   \<and> length_f (logs (registered ''12345678'' 10 ''ignore'') ! 0) + int (length (js ''abc''))
        > maxLength (logs (registered ''12345678'' 10 ''ignore'') ! 0)
   \<and> appendLog host_win ''log'' (js ''abc'') (registered ''12345678'' 10 ''ignore'') =
     (None, registered ''12345678'' 10 ''ignore'')"
  using stop_and_ignore_write_nothing [of "''log''" "registered ''12345678'' 10 ''stop''" 0 "js ''abc''" host_win]
    stop_and_ignore_write_nothing [of "''log''" "registered ''12345678'' 10 ''ignore''" 0 "js ''abc''" host_win]
  by (simp add: registered_def js_def)

subsection \<open>Overflow with the behaviour split\<close>

lemma indexOf_append: "c \<notin> set xs \<Longrightarrow> indexOf c (xs @ c # ys) = Some (length xs)"
  by (induction xs) auto

lemma lastIndexOf_last:
  assumes "c \<notin> set post"
  shows "lastIndexOf c (pre @ c # post) = int (length pre)"
proof -
  have "indexOf c (rev (pre @ c # post)) = Some (length post)"
    using assms indexOf_append [of c "rev post" "rev pre"] by simp
  then show ?thesis
    by (simp add: lastIndexOf_def)
qed

lemma slice_before: "slice (pre @ post) 0 (int (length pre)) = pre"
  by (simp add: slice_def slice_index_def)

lemma slice_from_at: "slice_from (pre @ post) (int (length pre)) = post"
  by (simp add: slice_from_def slice_index_def)

lemma div_or0_floor:
  assumes "0 < b" and "0 \<le> a" and "a div b < 2 ^ 31"
  shows "div_or0 a b = a div b"
proof -
  from assms(1,2) have q: "0 \<le> a div b"
    by (simp add: pos_imp_zdiv_nonneg_iff)
  from assms(1,2) have "trunc_div a b = a div b"
    by (cases "a = 0") (simp_all add: trunc_div_def)
  moreover from q assms(3) have "to_int32 (a div b) = a div b"
    by (simp add: to_int32_def)
  ultimately show ?thesis
    using assms(1) by (simp add: div_or0_def)
qed

lemma string_of_nat_digit: "n < 10 \<Longrightarrow> string_of_nat n = [digit_char n]"
  by (subst string_of_nat.simps) simp

lemma string_of_nat_more:
  "10 \<le> n \<Longrightarrow> string_of_nat n = string_of_nat (n div 10) @ [digit_char (n mod 10)]"
  by (subst string_of_nat.simps) simp

text \<open>
  Claim C5, as the code has it. For a descriptor with the behaviour \<^verbatim>\<open>split\<close>, a positive
  \<open>maxLength\<close>, a path with a dot in it, and an overflowing append whose quotient
  \<open>(length + len text) div maxLength\<close> is below \<open>2^31\<close>: the index is that quotient plus
  one, the sibling's name is the path with the index put right before its last dot, the
  text is appended to the sibling (which is created when missing) as its UTF-8 encoding,
  the descriptor's length grows by \<^verbatim>\<open>text.length\<close>, and the registry keeps its size;
  provided the file system accepts the write.
\<close>

theorem split_overflow_appends_to_sibling:
  assumes "findIndex a (logs st) = Some i"
    and "behaviour (logs st ! i) = ''split''"
    and "length_f (logs st ! i) + int (length text) > maxLength (logs st ! i)"
    and "0 < maxLength (logs st ! i)"
    and "(length_f (logs st ! i) + int (length text)) div maxLength (logs st ! i) < 2 ^ 31"
    and "path (logs st ! i) = pre @ CHR ''.'' # post"
    and "CHR ''.'' \<notin> set post"
    and "\<not> denied (fs st) (resolve h (nextFilePath (logs st ! i) text))"
  shows "fileIndex (logs st ! i) text =
           (length_f (logs st ! i) + int (length text)) div maxLength (logs st ! i) + 1
       \<and> nextFilePath (logs st ! i) text =
           pre @ string_of_int (fileIndex (logs st ! i) text) @ CHR ''.'' # post
       \<and> fst (appendLog h a text st) = None
       \<and> file_content (fs (snd (appendLog h a text st))) (resolve h (nextFilePath (logs st ! i) text)) =
           Some ((case file_content (fs st) (resolve h (nextFilePath (logs st ! i) text)) of
                    None \<Rightarrow> [] | Some old \<Rightarrow> old) @ utf8 text)
       \<and> logs (snd (appendLog h a text st)) =
           (logs st)[i := (logs st ! i)\<lparr>length_f := length_f (logs st ! i) + int (length text)\<rparr>]
       \<and> length (logs (snd (appendLog h a text st))) = length (logs st)"
proof -
  let ?log = "logs st ! i"
  let ?sib = "resolve h (nextFilePath ?log text)"
  from assms(3,4) have pos: "0 \<le> length_f ?log + int (length text)"
    by simp
  have idx: "fileIndex ?log text = (length_f ?log + int (length text)) div maxLength ?log + 1"
    using div_or0_floor [OF assms(4) pos assms(5)] by (simp add: fileIndex_def)
  have nxt: "nextFilePath ?log text = pre @ string_of_int (fileIndex ?log text) @ CHR ''.'' # post"
    using lastIndexOf_last [OF assms(7), of pre] slice_before [of pre "CHR ''.'' # post"]
      slice_from_at [of pre "CHR ''.'' # post"]
    by (simp add: nextFilePath_def assms(6))
  from appendFileSync_content [OF assms(8), of "utf8 text"] obtain f'
    where app: "appendFileSync (fs st) ?sib (utf8 text) = Inr f'"
      and con: "file_content f' ?sib =
                  Some ((case file_content (fs st) ?sib of None \<Rightarrow> [] | Some old \<Rightarrow> old) @ utf8 text)"
    by blast
  from assms(1,2,3) app have res: "appendLog h a text st =
      (None, set_length i (length_f ?log + int (length text)) (st\<lparr>fs := f'\<rparr>))"
    by (simp add: appendLog_def overflow_def)
  have eff: "fst (appendLog h a text st) = None
      \<and> file_content (fs (snd (appendLog h a text st))) ?sib =
           Some ((case file_content (fs st) ?sib of None \<Rightarrow> [] | Some old \<Rightarrow> old) @ utf8 text)
      \<and> logs (snd (appendLog h a text st)) =
           (logs st)[i := ?log\<lparr>length_f := length_f ?log + int (length text)\<rparr>]
      \<and> length (logs (snd (appendLog h a text st))) = length (logs st)"
    by (simp add: res con set_length_def)
  from idx nxt eff show ?thesis
    by (intro conjI) simp_all
qed

lemma nextFilePath_example:
  "nextFilePath \<lparr>path = ''log.txt'', alias = ''log'', length_f = 8, maxLength = 10,
      behaviour = ''split''\<rparr> (js ''abc'') = ''log2.txt''"
  by (simp add: nextFilePath_def fileIndex_def div_or0_def trunc_div_def to_int32_def js_def
      lastIndexOf_def slice_def slice_from_def slice_index_def string_of_int_def
      string_of_nat_digit digit_char_def)

theorem split_overflow_appends_to_sibling_witness:
  "findIndex ''log'' (logs (registered ''12345678'' 10 ''split'')) = Some 0
   \<and> behaviour (logs (registered ''12345678'' 10 ''split'') ! 0) = ''split''
   \<and> length_f (logs (registered ''12345678'' 10 ''split'') ! 0) + int (length (js ''abc''))
        > maxLength (logs (registered ''12345678'' 10 ''split'') ! 0)
   \<and> 0 < maxLength (logs (registered ''12345678'' 10 ''split'') ! 0)
   \<and> (length_f (logs (registered ''12345678'' 10 ''split'') ! 0) + int (length (js ''abc'')))
        div maxLength (logs (registered ''12345678'' 10 ''split'') ! 0) < 2 ^ 31
   \<and> path (logs (registered ''12345678'' 10 ''split'') ! 0) = ''log'' @ CHR ''.'' # ''txt''
   \<and> CHR ''.'' \<notin> set ''txt''
   \<and> \<not> denied (fs (registered ''12345678'' 10 ''split''))
          (resolve host_win (nextFilePath (logs (registered ''12345678'' 10 ''split'') ! 0) (js ''abc'')))
   \<and> fileIndex (logs (registered ''12345678'' 10 ''split'') ! 0) (js ''abc'') = 2
   \<and> nextFilePath (logs (registered ''12345678'' 10 ''split'') ! 0) (js ''abc'') = ''log2.txt''
   \<and> fst (appendLog host_win ''log'' (js ''abc'') (registered ''12345678'' 10 ''split'')) = None
   \<and> file_content (fs (snd (appendLog host_win ''log'' (js ''abc'') (registered ''12345678'' 10 ''split''))))
        (resolve host_win ''log2.txt'') = Some ''abc''
   \<and> map length_f (logs (snd (appendLog host_win ''log'' (js ''abc'') (registered ''12345678'' 10 ''split'')))) = [11]"
  using split_overflow_appends_to_sibling [of "''log''" "registered ''12345678'' 10 ''split''" 0 "js ''abc''"
      "''log''" "''txt''" host_win]
    nextFilePath_example utf8_js [of "''abc''"]
  by (simp add: registered_def disk_log_def file_content_def host_win_def resolve_def log_txt_def
      backslash_def ascii_def) (simp add: js_def)

text \<open>
  The bound on the quotient is needed: \<^verbatim>\<open>|0\<close> wraps to 32 bits. For a log of 2 GiB with
  \<open>maxLength = 1\<close> the index is negative, where the quotient plus one is 2147483650.
\<close>

theorem split_index_counterexample:
  "fileIndex huge_split_log (js ''a'') = - 2147483646
   \<and> (length_f huge_split_log + int (length (js ''a''))) div maxLength huge_split_log + 1 = 2147483650
   \<and> nextFilePath huge_split_log (js ''a'') = ''log-2147483646.txt''"
proof -
  have i: "fileIndex huge_split_log (js ''a'') = - 2147483646"
    by (simp add: fileIndex_def huge_split_log_def div_or0_def trunc_div_def to_int32_def js_def)
  have n: "string_of_nat 2147483646 = ''2147483646''"
    by (simp add: string_of_nat_digit string_of_nat_more digit_char_def)
  have p: "nextFilePath huge_split_log (js ''a'') = ''log-2147483646.txt''"
    by (simp add: nextFilePath_def i [unfolded huge_split_log_def] huge_split_log_def lastIndexOf_def
        slice_def slice_from_def slice_index_def string_of_int_def n)
  have f: "(length_f huge_split_log + int (length (js ''a''))) div maxLength huge_split_log + 1 = 2147483650"
    by (simp add: huge_split_log_def js_def)
  from i f p show ?thesis by (intro conjI)
qed

subsection \<open>The path a descriptor stores\<close>

lemma addLog_logs:
  "logs (snd (addLog h file0 a m b st)) = logs st
   \<or> (\<exists>d. logs (snd (addLog h file0 a m b st)) = logs st @ [d] \<and> path d = replace_slashes file0)"
  by (simp add: addLog_def Let_def error_def warn_def split: sum.split prod.split)

text \<open>
  Claim C9, as the code has it. A call of \<^verbatim>\<open>addLog\<close> either leaves the registry as it was
  or adds one descriptor at its end, whose path is the given path with every slash
  replaced by a backslash, whatever the platform of the host; that is the path
  normalized to the separator of Windows.
\<close>

theorem stored_path_has_backslashes:
  "(logs (snd (addLog h file0 a m b st)) = logs st
    \<or> (\<exists>d. logs (snd (addLog h file0 a m b st)) = logs st @ [d] \<and> path d = replace_slashes file0))
   \<and> replace_slashes file0 = normalize_separators Windows file0"
proof -
  have "replace_slashes file0 = normalize_separators Windows file0"
    by (simp add: replace_slashes_def normalize_separators_def)
  with addLog_logs show ?thesis by blast
qed

text \<open>
  On a POSIX host the stored path is not the given path normalized to the separator of
  the host: \<^verbatim>\<open>logs/log.txt\<close> is stored with a backslash.
\<close>

theorem stored_path_counterexample:
  "map path (logs (snd (addLog host_posix_old ''logs/log.txt'' ''log'' 10 ''stop'' (start disk_empty))))
     = [''logs'' @ backslash # ''log.txt'']
   \<and> normalize_separators (platform host_posix_old) ''logs/log.txt'' = ''logs/log.txt''
   \<and> ''logs'' @ backslash # ''log.txt'' \<noteq> ''logs/log.txt''"
  by (simp add: addLog_def host_posix_old_def start_def disk_empty_def existsSync_def
      writeFileSync_no_data_def writeFileSync_def create_file_def replace_slashes_def
      normalize_separators_def backslash_def resolve_def projectDir_def Let_def)

subsection \<open>What the operations leave alone\<close>

lemma set_length_identity:
  "map identity_of (logs (set_length i n st)) = map identity_of (logs st)"
proof (cases "i < length (logs st)")
  case True
  then have "map identity_of ((logs st)[i := (logs st ! i)\<lparr>length_f := n\<rparr>])
      = (map identity_of (logs st))[i := map identity_of (logs st) ! i]"
    by (simp add: map_update identity_of_def)
  then show ?thesis
    by (simp add: set_length_def)
next
  case False
  then have "(logs st)[i := (logs st ! i)\<lparr>length_f := n\<rparr>] = logs st"
    by (intro list_update_beyond) simp
  then show ?thesis
    by (simp add: set_length_def)
qed

lemma set_length_fs_identity:
  "map identity_of (logs (set_length i n (st\<lparr>fs := f\<rparr>))) = map identity_of (logs st)"
  using set_length_identity [of i n "st\<lparr>fs := f\<rparr>"] by simp

lemma rewrite_logs: "logs (snd (rewrite h i text st)) = logs st"
  by (simp add: rewrite_def Let_def split: option.split sum.split prod.split)

lemma overflow_identity:
  "map identity_of (logs (snd (overflow h i text st))) = map identity_of (logs st)"
  by (simp add: overflow_def Let_def rewrite_logs set_length_fs_identity info_def split: sum.split)

lemma appendLog_identity:
  "map identity_of (logs (snd (appendLog h a text st))) = map identity_of (logs st)"
  by (simp add: appendLog_def Let_def overflow_identity set_length_fs_identity error_def
      split: option.split sum.split)

text \<open>
  Claim C10. \<^verbatim>\<open>writeLog\<close>, \<^verbatim>\<open>appendLog\<close>, \<^verbatim>\<open>appendLineLog\<close>, \<^verbatim>\<open>clearLog\<close> and \<^verbatim>\<open>overflow\<close> with
  any behaviour leave the registry with the same descriptors in the same order, each
  with the path, alias, maximum length and behaviour it had: only the tracked length of
  a descriptor can differ, and no descriptor is added or removed.
\<close>

theorem only_length_is_mutated:
  "map identity_of (logs (snd (writeLog h a text st))) = map identity_of (logs st)
   \<and> map identity_of (logs (snd (appendLog h a text st))) = map identity_of (logs st)
   \<and> map identity_of (logs (snd (appendLineLog h a text st))) = map identity_of (logs st)
   \<and> map identity_of (logs (snd (clearLog h a st))) = map identity_of (logs st)
   \<and> map identity_of (logs (snd (overflow h i text st))) = map identity_of (logs st)"
proof -
  have w: "map identity_of (logs (snd (writeLog h a text st))) = map identity_of (logs st)"
    by (simp add: writeLog_def set_length_fs_identity error_def split: option.split sum.split)
  have c: "map identity_of (logs (snd (clearLog h a st))) = map identity_of (logs st)"
    by (simp add: clearLog_def set_length_fs_identity error_def split: option.split sum.split)
  have l: "map identity_of (logs (snd (appendLineLog h a text st))) = map identity_of (logs st)"
    by (simp add: appendLineLog_def appendLog_identity)
  from w c l appendLog_identity overflow_identity show ?thesis
    by (intro conjI)
qed

subsection \<open>Registering a log\<close>

text \<open>
  On Windows the absolute path \<^verbatim>\<open>projectDir + file\<close> that \<^verbatim>\<open>addLog\<close> tests and the relative
  path it writes and stores denote the same file.
\<close>

lemma is_absolute_append: "is_absolute pf p \<Longrightarrow> is_absolute pf (p @ q)"
  by (cases pf; cases p) (auto split: list.splits if_splits)

lemma resolve_projectDir_windows:
  assumes "platform h = Windows" and "is_absolute Windows (cwd h)" and "\<not> is_absolute Windows file"
  shows "resolve h (projectDir h @ file) = resolve h file"
proof -
  from assms(2) have "is_absolute Windows (cwd h @ backslash # file)"
    by (rule is_absolute_append)
  with assms(1,3) show ?thesis
    by (simp add: resolve_def projectDir_def)
qed

text \<open>
  A file that exists is registered with its size, and the file system is not touched.
  When the file is missing and the system refuses the path, or Node refuses the missing
  data, the error is reported and nothing else changes.
\<close>

lemma addLog_existing_file:
  assumes "file_content (fs st) (resolve h (projectDir h @ replace_slashes file0)) = Some c"
    and "\<not> denied (fs st) (resolve h (projectDir h @ replace_slashes file0))"
  shows "fst (addLog h file0 a m b st) = None
       \<and> fs (snd (addLog h file0 a m b st)) = fs st
       \<and> (\<exists>b'. logs (snd (addLog h file0 a m b st)) =
             logs st @ [\<lparr>path = replace_slashes file0, alias = a, length_f = int (length c),
                          maxLength = m, behaviour = b'\<rparr>])"
  using assms
  by (auto simp: addLog_def Let_def existsSync_def statSync_size_def file_content_def warn_def
      split: option.splits)

lemma addLog_refused:
  assumes "\<not> existsSync (fs st) (resolve h (projectDir h @ replace_slashes file0))"
    and "denied (fs st) (resolve h (replace_slashes file0))"
  shows "addLog h file0 a m b st =
           (None, error (''Fama couldn't create a file '' @ projectDir h @ replace_slashes file0) st)"
  using assms
  by (simp add: addLog_def Let_def writeFileSync_no_data_def writeFileSync_def)

lemma addLog_missing_file:
  assumes "\<not> existsSync (fs st) (resolve h (projectDir h @ replace_slashes file0))"
    and "\<not> coerces_missing_data h"
  shows "addLog h file0 a m b st =
           (None, error (''Fama couldn't create a file '' @ projectDir h @ replace_slashes file0) st)"
  using assms
  by (simp add: addLog_def Let_def writeFileSync_no_data_def)

text \<open>
  Of the words \<^verbatim>\<open>stop\<close>, \<^verbatim>\<open>ingore\<close>, \<^verbatim>\<open>split\<close>, \<^verbatim>\<open>rewrite\<close>, \<^verbatim>\<open>continue\<close> the new descriptor
  stores the one it is given, silently; for any other it stores \<^verbatim>\<open>stop\<close> after a warning.
\<close>

lemma addLog_behaviour:
  assumes "logs (snd (addLog h file0 a m b st)) = logs st @ [d]"
  shows "if b = ''stop'' \<or> b = ''ingore'' \<or> b = ''split'' \<or> b = ''rewrite'' \<or> b = ''continue''
         then behaviour d = b \<and> stdout (snd (addLog h file0 a m b st)) = stdout st
         else behaviour d = ''stop'' \<and> stdout (snd (addLog h file0 a m b st)) =
                stdout st @ [warn_line (CHR 0x27 # b @ CHR 0x27 #
                  '' is not valid behaviour type. Defaulting to stop.'')]"
  using assms
  by (auto simp: addLog_def Let_def error_def warn_def split: sum.splits prod.splits if_splits)

text \<open>
  Claim C3 at the behaviour \<^verbatim>\<open>ignore\<close>. The check in \<^verbatim>\<open>addLog\<close> compares with \<^verbatim>\<open>'ingore'\<close>:
  registering an existing file with the behaviour \<^verbatim>\<open>ignore\<close> writes the warning and
  stores \<^verbatim>\<open>stop\<close>, and registering it with \<^verbatim>\<open>ingore\<close> stores that word without a warning.
\<close>

theorem ignore_is_rejected:
  "addLog host_win ''log.txt'' ''log'' 10 ''ignore'' (start (disk_log ''12'')) =
     (None, \<lparr>logs = [\<lparr>path = ''log.txt'', alias = ''log'', length_f = 2, maxLength = 10,
                        behaviour = ''stop''\<rparr>],
             fs = disk_log ''12'',
             stdout = [warn_line (CHR 0x27 # ''ignore'' @ CHR 0x27 #
                         '' is not valid behaviour type. Defaulting to stop.'')]\<rparr>)
   \<and> addLog host_win ''log.txt'' ''log'' 10 ''ingore'' (start (disk_log ''12'')) =
     (None, \<lparr>logs = [\<lparr>path = ''log.txt'', alias = ''log'', length_f = 2, maxLength = 10,
                        behaviour = ''ingore''\<rparr>],
             fs = disk_log ''12'',
             stdout = []\<rparr>)"
  by (simp add: addLog_def Let_def host_win_def start_def disk_log_def log_txt_def existsSync_def
      statSync_size_def replace_slashes_def resolve_def projectDir_def backslash_def warn_def)

text \<open>
  Claim C4 at a file that does not exist. \<^verbatim>\<open>addLog\<close> calls \<^verbatim>\<open>fs.writeFileSync(file)\<close> with no
  data. Under Node 14 and later that call throws inside the \<^verbatim>\<open>try\<close>: the error is
  reported, no file is created and no descriptor is added. Under an older Node the file
  is created with the nine bytes \<^verbatim>\<open>undefined\<close> while the descriptor's length is 0.
\<close>

theorem missing_file_is_not_created_empty:
  "addLog host_win ''new.txt'' ''log'' 10 ''stop'' (start disk_empty) =
     (None, \<lparr>logs = [], fs = disk_empty,
             stdout = [error_line (''Fama couldn't create a file C:'' @ backslash # ''app'' @ backslash # ''new.txt'')]\<rparr>)
   \<and> logs (snd (addLog host_win_old ''new.txt'' ''log'' 10 ''stop'' (start disk_empty))) =
       [\<lparr>path = ''new.txt'', alias = ''log'', length_f = 0, maxLength = 10, behaviour = ''stop''\<rparr>]
   \<and> file_content (fs (snd (addLog host_win_old ''new.txt'' ''log'' 10 ''stop'' (start disk_empty))))
        (resolve host_win_old ''new.txt'') = Some ''undefined''"
  by (simp add: addLog_def Let_def host_win_def host_win_old_def start_def disk_empty_def existsSync_def
      writeFileSync_no_data_def writeFileSync_def create_file_def file_content_def
      replace_slashes_def resolve_def projectDir_def backslash_def error_def)

subsection \<open>Overflow with the behaviour rewrite\<close>

lemma chunks_Nil: "chunks n [] = []"
  by (simp add: chunks.simps)

lemma chunks_step: "0 < n \<Longrightarrow> s \<noteq> [] \<Longrightarrow> chunks n s = take n s # chunks n (drop n s)"
  by (subst chunks.simps) simp

lemma chunks_single: "0 < n \<Longrightarrow> s \<noteq> [] \<Longrightarrow> length s \<le> n \<Longrightarrow> chunks n s = [s]"
  by (simp add: chunks_step chunks_Nil)

lemma split_nl_no_newline: "line_feed \<notin> set s \<Longrightarrow> split_nl s = [s]"
  by (induction s) auto

text \<open>
  What the \<^verbatim>\<open>'data'\<close> handler guarantees for a file of ASCII text. Within one chunk it
  cuts right after a newline; over the whole file it writes a suffix of the content,
  shorter than the content by at least \<^verbatim>\<open>toDelete\<close> bytes. A file of one chunk therefore
  loses whole lines only.
\<close>

lemma split_nl_not_Nil: "split_nl s \<noteq> []"
  by (induction s) (auto split: list.split)

lemma join_nl_Cons_Cons: "join_nl ((c # t) # ts) = c # join_nl (t # ts)"
  by (cases ts) simp_all

lemma join_nl_split_nl: "join_nl (split_nl s) = s"
proof (induction s)
  case Nil
  show ?case by simp
next
  case (Cons c cs)
  obtain t ts where sp: "split_nl cs = t # ts"
    using split_nl_not_Nil [of cs] by (cases "split_nl cs") auto
  with Cons show ?case
    by (simp add: join_nl_Cons_Cons)
qed

lemma drop_segments_keeps_whole_lines:
  "drop_segments d ts = (d', Some kept) \<Longrightarrow>
     \<exists>dropped. join_nl ts = dropped @ line_feed # kept \<and> d \<le> int (length dropped)"
proof (induction ts arbitrary: d)
  case Nil
  then show ?case by simp
next
  case (Cons t rest)
  show ?case
  proof (cases "d - int (length t) \<le> 0 \<and> rest \<noteq> []")
    case True
    with Cons.prems have "kept = join_nl rest"
      by simp
    moreover from True obtain u us where "rest = u # us"
      by (cases rest) auto
    ultimately have "join_nl (t # rest) = t @ line_feed # kept"
      by simp
    with True show ?thesis by auto
  next
    case False
    with Cons.prems have rec: "drop_segments (d - int (length t)) rest = (d', Some kept)"
      by auto
    from Cons.IH [OF rec] obtain dropped
      where j: "join_nl rest = dropped @ line_feed # kept"
        and b: "d - int (length t) \<le> int (length dropped)"
      by blast
    from rec obtain u us where "rest = u # us"
      by (cases rest) auto
    with j have "join_nl (t # rest) = (t @ line_feed # dropped) @ line_feed # kept"
      by simp
    moreover from b have "d \<le> int (length (t @ line_feed # dropped))"
      by simp
    ultimately show ?thesis by blast
  qed
qed

lemma ascii_append: "ascii (xs @ ys) \<longleftrightarrow> ascii xs \<and> ascii ys"
  by (simp add: ascii_def)

lemma ascii_take_drop: "ascii s \<Longrightarrow> ascii (take n s) \<and> ascii (drop n s)"
  using ascii_append [of "take n s" "drop n s"] by simp

lemma js_cut:
  assumes "js c = dropped @ line_feed # kept"
  shows "\<exists>c1 c2. c = c1 @ newline # c2 \<and> length c1 = length dropped \<and> kept = js c2"
proof -
  from assms have "map of_char c = dropped @ (line_feed # kept)"
    by (simp add: js_def)
  then obtain c1 z c2 where c: "c = c1 @ z # c2" and d: "dropped = map of_char c1"
      and z: "line_feed = (of_char z :: nat)" and k: "kept = map of_char c2"
    by (auto simp: map_eq_append_conv map_eq_Cons_conv)
  have "(of_char newline :: nat) = line_feed"
    by (simp add: newline_def line_feed_def)
  with z have "(of_char z :: nat) = of_char newline"
    by simp
  then have "z = newline"
    by (simp only: of_char_eq_iff)
  with c d k have "c = c1 @ newline # c2 \<and> length c1 = length dropped \<and> kept = js c2"
    by (simp add: js_def)
  then show ?thesis by blast
qed

lemma on_data_skip:
  assumes "ascii c" and "\<not> pass r" and "toDelete r > int (length c)"
  shows "on_data r c = r\<lparr>toDelete := toDelete r - int (length c)\<rparr>"
  using assms by (simp add: on_data_def toString_ascii js_def)

lemma on_data_cut:
  assumes "ascii c" and "\<not> pass r" and "\<not> toDelete r > int (length c)"
  shows "pass (on_data r c)
       \<and> (written (on_data r c) = written r
          \<or> (\<exists>c1 c2. c = c1 @ newline # c2 \<and> toDelete r \<le> int (length c1)
                \<and> written (on_data r c) = written r @ c2))"
proof -
  obtain d' res where ds: "drop_segments (toDelete r) (split_nl (js c)) = (d', res)"
    by (cases "drop_segments (toDelete r) (split_nl (js c))") auto
  show ?thesis
  proof (cases res)
    case None
    with assms ds show ?thesis
      by (simp add: on_data_def toString_ascii js_def)
  next
    case (Some kept)
    with assms ds have p: "pass (on_data r c)" and w: "written (on_data r c) = written r @ utf8 kept"
      by (simp_all add: on_data_def toString_ascii) (simp_all add: js_def)
    from drop_segments_keeps_whole_lines [OF ds [unfolded Some]] obtain dropped
      where j: "js c = dropped @ line_feed # kept" and b: "toDelete r \<le> int (length dropped)"
      by (auto simp: join_nl_split_nl)
    from js_cut [OF j] obtain c1 c2
      where c: "c = c1 @ newline # c2" and l: "length c1 = length dropped" and k: "kept = js c2"
      by blast
    from assms(1) c have "ascii c2"
      by (simp add: ascii_def)
    with k have "utf8 kept = c2"
      by (simp add: utf8_js)
    with p w c l b show ?thesis
      by auto
  qed
qed

lemma on_data_passing:
  "pass r \<Longrightarrow> pass (on_data r c) \<and> written (on_data r c) = written r @ c"
  by (simp add: on_data_def)

lemma foldl_on_data_passing:
  "pass r \<Longrightarrow> written (foldl on_data r cs) = written r @ concat cs"
proof (induction cs arbitrary: r)
  case Nil
  show ?case by simp
next
  case (Cons c cs)
  from Cons.prems have "pass (on_data r c)" "written (on_data r c) = written r @ c"
    by (simp_all add: on_data_passing)
  with Cons.IH [of "on_data r c"] show ?case
    by simp
qed

lemma foldl_on_data_suffix:
  "list_all ascii cs \<Longrightarrow> \<exists>k. written (foldl on_data r cs) = written r @ drop k (concat cs)"
proof (induction cs arbitrary: r)
  case Nil
  show ?case by simp
next
  case (Cons c cs)
  then have ac: "ascii c" and acs: "list_all ascii cs"
    by simp_all
  show ?case
  proof (cases "pass r")
    case True
    then have "written (foldl on_data r (c # cs)) = written r @ drop 0 (concat (c # cs))"
      using foldl_on_data_passing [of r "c # cs"] by simp
    then show ?thesis by blast
  next
    case False
    show ?thesis
    proof (cases "toDelete r > int (length c)")
      case True
      with ac False have w: "written (on_data r c) = written r"
        by (simp add: on_data_skip)
      from Cons.IH [OF acs, of "on_data r c"] obtain k
        where "written (foldl on_data (on_data r c) cs) = written (on_data r c) @ drop k (concat cs)"
        by blast
      with w have "written (foldl on_data r (c # cs)) = written r @ drop (length c + k) (concat (c # cs))"
        by simp
      then show ?thesis by blast
    next
      case noskip: False
      from on_data_cut [OF ac False noskip] have p: "pass (on_data r c)"
        and w: "written (on_data r c) = written r
          \<or> (\<exists>c1 c2. c = c1 @ newline # c2 \<and> toDelete r \<le> int (length c1)
                \<and> written (on_data r c) = written r @ c2)"
        by simp_all
      from w show ?thesis
      proof
        assume "written (on_data r c) = written r"
        with foldl_on_data_passing [OF p, of cs]
        have "written (foldl on_data r (c # cs)) = written r @ drop (length c) (concat (c # cs))"
          by simp
        then show ?thesis by blast
      next
        assume "\<exists>c1 c2. c = c1 @ newline # c2 \<and> toDelete r \<le> int (length c1)
                \<and> written (on_data r c) = written r @ c2"
        then obtain c1 c2 where c: "c = c1 @ newline # c2"
          and w2: "written (on_data r c) = written r @ c2"
          by blast
        from c have "drop (Suc (length c1)) (concat (c # cs)) = c2 @ concat cs"
          by simp
        with foldl_on_data_passing [OF p, of cs] w2
        have "written (foldl on_data r (c # cs)) = written r @ drop (Suc (length c1)) (concat (c # cs))"
          by simp
        then show ?thesis by blast
      qed
    qed
  qed
qed

lemma concat_chunks: "0 < n \<Longrightarrow> concat (chunks n s) = s"
proof (induction n s rule: chunks.induct)
  case (1 n s)
  show ?case
  proof (cases "s = []")
    case True
    then show ?thesis by (simp add: chunks_Nil)
  next
    case False
    with 1 show ?thesis
      by (simp add: chunks_step)
  qed
qed

lemma chunks_0: "chunks 0 s = []"
  by (subst chunks.simps) simp

lemma ascii_chunks: "ascii s \<Longrightarrow> list_all ascii (chunks n s)"
proof (induction n s rule: chunks.induct)
  case (1 n s)
  show ?case
  proof (cases "n = 0 \<or> s = []")
    case True
    then show ?thesis by (auto simp: chunks_0 chunks_Nil)
  next
    case False
    with 1 ascii_take_drop [of s n] show ?thesis
      by (simp add: chunks_step)
  qed
qed

lemma trimmed_is_suffix: "ascii s \<Longrightarrow> 0 < n \<Longrightarrow> \<exists>k. trimmed n d s = drop k s"
  using foldl_on_data_suffix [OF ascii_chunks, of s "\<lparr>toDelete = d, pass = False, written = []\<rparr>" n]
  by (simp add: trimmed_def concat_chunks)

lemma trimmed_one_chunk:
  assumes "ascii s" and "length s \<le> n"
  shows "trimmed n d s = [] \<or> (\<exists>dropped. s = dropped @ newline # trimmed n d s)"
proof (cases "s = []")
  case True
  then show ?thesis
    by (simp add: trimmed_def chunks_Nil)
next
  case False
  with assms have ch: "chunks n s = [s]"
    by (cases n) (simp_all add: chunks_single)
  let ?r = "\<lparr>toDelete = d, pass = False, written = []\<rparr>"
  show ?thesis
  proof (cases "d > int (length s)")
    case True
    with assms(1) have "trimmed n d s = []"
      by (simp add: trimmed_def ch on_data_skip)
    then show ?thesis by simp
  next
    case False
    from on_data_cut [OF assms(1), of ?r] False
    have "written (on_data ?r s) = []
          \<or> (\<exists>c1 c2. s = c1 @ newline # c2 \<and> written (on_data ?r s) = c2)"
      by auto
    then show ?thesis
      by (auto simp: trimmed_def ch)
  qed
qed

lemma foldl_on_data_length:
  "list_all ascii cs \<Longrightarrow> \<not> pass r \<Longrightarrow>
     int (length (written (foldl on_data r cs)))
       \<le> int (length (written r)) + max 0 (int (length (concat cs)) - toDelete r)"
proof (induction cs arbitrary: r)
  case Nil
  show ?case by simp
next
  case (Cons c cs)
  then have ac: "ascii c" and acs: "list_all ascii cs"
    by simp_all
  show ?case
  proof (cases "toDelete r > int (length c)")
    case True
    with ac Cons.prems have r': "\<not> pass (on_data r c)" "written (on_data r c) = written r"
        "toDelete (on_data r c) = toDelete r - int (length c)"
      by (simp_all add: on_data_skip)
    from Cons.IH [OF acs r'(1)] r'(2,3) show ?thesis
      by simp
  next
    case noskip: False
    from on_data_cut [OF ac Cons.prems(2) noskip] have p: "pass (on_data r c)"
      and w: "written (on_data r c) = written r
        \<or> (\<exists>c1 c2. c = c1 @ newline # c2 \<and> toDelete r \<le> int (length c1)
              \<and> written (on_data r c) = written r @ c2)"
      by simp_all
    from w show ?thesis
    proof
      assume "written (on_data r c) = written r"
      with foldl_on_data_passing [OF p, of cs] noskip show ?thesis
        by simp
    next
      assume "\<exists>c1 c2. c = c1 @ newline # c2 \<and> toDelete r \<le> int (length c1)
              \<and> written (on_data r c) = written r @ c2"
      then obtain c1 c2 where c: "c = c1 @ newline # c2" and b: "toDelete r \<le> int (length c1)"
        and w2: "written (on_data r c) = written r @ c2"
        by blast
      from foldl_on_data_passing [OF p, of cs] w2
      have "written (foldl on_data r (c # cs)) = written r @ c2 @ concat cs"
        by simp
      with c b show ?thesis
        by simp
    qed
  qed
qed

lemma trimmed_length:
  "ascii s \<Longrightarrow> 0 < n \<Longrightarrow> int (length (trimmed n d s)) \<le> max 0 (int (length s) - d)"
  using foldl_on_data_length [OF ascii_chunks, of s "\<lparr>toDelete = d, pass = False, written = []\<rparr>" n]
  by (simp add: trimmed_def concat_chunks)

text \<open>
  The rotation as a whole, when the log exists, no file has the temporary name yet, and
  the file system accepts the calls.
\<close>

lemma rewrite_completes:
  assumes "names (fs st) (resolve h (path (logs st ! i))) = Some r"
    and "r \<noteq> fresh (fs st)"
    and "names (fs st) (resolve h (path (logs st ! i) @ ''.temp'')) = None"
    and "\<not> denied (fs st) (resolve h (path (logs st ! i)))"
    and "\<not> denied (fs st) (resolve h (path (logs st ! i) @ ''.temp''))"
  shows "fst (rewrite h i text st) = None
       \<and> file_content (fs (snd (rewrite h i text st))) (resolve h (path (logs st ! i))) =
           Some (trimmed (highWaterMark h)
                   (length_f (logs st ! i) + int (length text) - maxLength (logs st ! i))
                   (contents (fs st) r) @ utf8 text)
       \<and> file_content (fs (snd (rewrite h i text st))) (resolve h (path (logs st ! i) @ ''.temp'')) = None
       \<and> logs (snd (rewrite h i text st)) = logs st
       \<and> stdout (snd (rewrite h i text st)) = stdout st"
proof -
  let ?p = "resolve h (path (logs st ! i))"
  let ?t = "resolve h (path (logs st ! i) @ ''.temp'')"
  from assms(1,3) have ne: "?p \<noteq> ?t" "?t \<noteq> ?p"
    by auto
  show ?thesis
    using assms ne
    by (simp add: rewrite_def Let_def open_write_def create_file_def stream_write_def
        unlinkSync_def linkSync_def file_content_def)
qed

lemma three_lines_ascii: "ascii (''12'' @ newline # ''ab'' @ newline # ''XY'' @ [newline])"
  by (simp add: ascii_def newline_def)

lemma trimmed_example:
  "trimmed 65536 5 (''12'' @ newline # ''ab'' @ newline # ''XY'' @ [newline]) = []"
proof -
  let ?s = "''12'' @ newline # ''ab'' @ newline # ''XY'' @ [newline]"
  have "toString ?s = js ?s"
    by (rule toString_ascii [OF three_lines_ascii])
  also have "js ?s = [49, 50, 10, 97, 98, 10, 88, 89, 10]"
    by (simp add: js_def newline_def)
  finally have js: "toString ?s = [49, 50, 10, 97, 98, 10, 88, 89, 10]" .
  have "on_data \<lparr>toDelete = 5, pass = False, written = []\<rparr> ?s =
      \<lparr>toDelete = - 1, pass = True, written = utf8 []\<rparr>"
    by (simp add: on_data_def js [simplified] line_feed_def)
  then show ?thesis
    by (simp add: trimmed_def chunks_single) (simp add: utf8_def)
qed

text \<open>
  Claim C1 at a log of three lines. With \<open>maxLength = 10\<close>, the file \<^verbatim>\<open>12\nab\nXY\n\<close>
  registered with its 9 bytes, and the text \<^verbatim>\<open>hello\n\<close>: the rotation drops the three
  lines and the file ends as \<^verbatim>\<open>hello\n\<close>, 6 bytes, while the descriptor's length is
  still 9.
\<close>

theorem rewrite_keeps_stale_length:
  "fst (appendLog host_win ''log'' (js (''hello'' @ [newline]))
          (registered (''12'' @ newline # ''ab'' @ newline # ''XY'' @ [newline]) 10 ''rewrite'')) = None
   \<and> file_content (fs (snd (appendLog host_win ''log'' (js (''hello'' @ [newline]))
          (registered (''12'' @ newline # ''ab'' @ newline # ''XY'' @ [newline]) 10 ''rewrite''))))
        log_txt = Some (''hello'' @ [newline])
   \<and> map length_f (logs (snd (appendLog host_win ''log'' (js (''hello'' @ [newline]))
          (registered (''12'' @ newline # ''ab'' @ newline # ''XY'' @ [newline]) 10 ''rewrite'')))) = [9]"
proof -
  let ?old = "''12'' @ newline # ''ab'' @ newline # ''XY'' @ [newline]"
  let ?st = "registered ?old 10 ''rewrite''"
  let ?new = "js (''hello'' @ [newline])"
  have len: "int (length ?new) = 6"
    by (simp add: js_def)
  have enc: "utf8 ?new = ''hello'' @ [newline]"
    by (rule utf8_js) (simp add: ascii_def newline_def)
  have ov: "appendLog host_win ''log'' ?new ?st = rewrite host_win 0 ?new ?st"
    by (simp add: appendLog_def overflow_def registered_def js_def)
  show ?thesis
    unfolding ov
    using rewrite_completes [of "?st" host_win 0 0 "?new"]
    by (simp add: registered_def disk_log_def host_win_def resolve_def log_txt_def backslash_def
        len [simplified] enc [simplified] trimmed_example [simplified])
qed

lemma chunks_long_line_log:
  "chunks 65536 long_line_log = [replicate 65536 CHR ''a'', ''b'' @ newline # ''c'' @ [newline]]"
proof -
  have "chunks 65536 (replicate 65536 CHR ''a'' @ ''b'' @ newline # ''c'' @ [newline]) =
      replicate 65536 CHR ''a'' # chunks 65536 (''b'' @ newline # ''c'' @ [newline])"
    by (subst chunks_step) simp_all
  then show ?thesis
    by (simp add: long_line_log_def chunks_single)
qed

lemma toString_long_line: "toString (replicate 65536 CHR ''a'') = replicate 65536 97"
proof -
  have "ascii (replicate 65536 CHR ''a'')"
    by (simp add: ascii_def list_all_iff)
  then show ?thesis
    by (simp add: toString_ascii js_def)
qed

lemma trimmed_long_line_log: "trimmed 65536 1 long_line_log = ''b'' @ newline # ''c'' @ [newline]"
proof -
  have "split_nl (replicate 65536 97) = [replicate 65536 97]"
    by (rule split_nl_no_newline) (simp add: line_feed_def)
  then have first: "on_data \<lparr>toDelete = 1, pass = False, written = []\<rparr> (replicate 65536 CHR ''a'') =
      \<lparr>toDelete = - 65535, pass = True, written = []\<rparr>"
    by (simp add: on_data_def toString_long_line)
  show ?thesis
    by (simp add: trimmed_def chunks_long_line_log first) (simp add: on_data_def)
qed

text \<open>
  Claim C2 at a log whose first line spans two chunks. The file holds the line of 65536
  \<^verbatim>\<open>a\<close> and one \<^verbatim>\<open>b\<close>, then the line \<^verbatim>\<open>c\<close>; one byte has to go. The first chunk has no
  newline, so the handler writes nothing of it and lets the second chunk through: the
  file ends as \<^verbatim>\<open>b\nc\nx\<close>, which starts in the middle of the first line.
\<close>

theorem rewrite_keeps_partial_line:
  "fst (appendLog host_win ''log'' (js ''x'') (registered long_line_log 65540 ''rewrite'')) = None
   \<and> file_content (fs (snd (appendLog host_win ''log'' (js ''x'') (registered long_line_log 65540 ''rewrite''))))
        log_txt = Some (''b'' @ newline # ''c'' @ newline # ''x'')"
proof -
  let ?st = "registered long_line_log 65540 ''rewrite''"
  have len: "int (length long_line_log) = 65540"
    by (simp add: long_line_log_def)
  have enc: "utf8 (js ''x'') = ''x''"
    by (rule utf8_js) (simp add: ascii_def)
  have ov: "appendLog host_win ''log'' (js ''x'') ?st = rewrite host_win 0 (js ''x'') ?st"
    by (simp add: appendLog_def overflow_def registered_def len js_def)
  show ?thesis
    unfolding ov
    using rewrite_completes [of "?st" host_win 0 0 "js ''x''"] trimmed_long_line_log
    by (simp add: registered_def disk_log_def host_win_def resolve_def log_txt_def backslash_def len enc)
      (simp add: js_def)
qed

end
